theory Spec2Isabelle
  imports Complex_Main "HOL-Library.Log_Nat"
begin

section \<open>Numbers\<close>

text \<open>
  A TypeScript \<open>number\<close> is an IEEE-754 double. Every finite double is a rational, so a
  number is modelled as a \<^typ>\<open>rat\<close>, and an arithmetic operation is the exact operation
  followed by \<open>fl\<close>, rounding to 53 significant bits, ties to even. The exponent range is
  not bounded: overflow to \<open>Infinity\<close>, subnormal numbers, \<open>NaN\<close> and the sign of zero are
  outside the model. A decimal literal of the source such as \<open>0.18\<close> denotes \<open>fl (18/100)\<close>.
\<close>

type_synonym number = rat

definition expo :: "rat \<Rightarrow> int" where
  \<comment> \<open>the binary exponent \<open>e\<close> with \<open>2^e \<le> |x| < 2^(e+1)\<close>, computed from the bit lengths\<close>
  "expo x = (let (p, q) = quotient_of \<bar>x\<bar>; d = bitlen p - bitlen q
             in if 2 powi d \<le> \<bar>x\<bar> then d else d - 1)"

definition round_ties_even :: "rat \<Rightarrow> int" where
  "round_ties_even y = (let f = \<lfloor>y\<rfloor>; r = y - of_int f
     in if r < 1/2 then f else if 1/2 < r then f + 1 else if even f then f else f + 1)"

definition fl :: "rat \<Rightarrow> number" where
  "fl x = (if x = 0 then 0
           else let e = expo x - 52 in of_int (round_ties_even (x / 2 powi e)) * 2 powi e)"

definition js_mul :: "number \<Rightarrow> number \<Rightarrow> number" where
  \<comment> \<open>\<open>a * b\<close>\<close>
  "js_mul a b = fl (a * b)"

definition js_add :: "number \<Rightarrow> number \<Rightarrow> number" where
  \<comment> \<open>\<open>a + b\<close>\<close>
  "js_add a b = fl (a + b)"

definition Math_floor :: "number \<Rightarrow> int" where
  "Math_floor x = \<lfloor>x\<rfloor>"

definition toFixed :: "nat \<Rightarrow> number \<Rightarrow> number" where
  \<comment> \<open>\<open>x.toFixed(f)\<close>: the integer \<open>n\<close> with \<open>n / 10^f\<close> nearest to \<open>|x|\<close>, the larger one on
      a tie, with the sign of \<open>x\<close>. The model keeps the value \<open>n / 10^f\<close> that the digits spell.\<close>
  "toFixed f x = (let r = (\<lambda>y. of_int \<lfloor>y * 10 ^ f + 1 / 2\<rfloor> / 10 ^ f)
                  in if x < 0 then - r (- x) else r x)"

section \<open>Data model of \<open>lib/vlayer.ts\<close>\<close>

datatype account_type = Checking | Savings

record NubankAccount =
  acc_id :: string
  acc_name :: string
  acc_type :: account_type
  balance :: number
  currency :: string

record Bank =
  bank_id :: string
  bank_name :: string
  bank_code :: string

record NubankBankData =
  bank :: Bank
  accounts :: "NubankAccount list"

record Response =
  ok :: bool
  status :: nat

text \<open>\<open>WebProof.data\<close> and \<open>Web.json\<close> have type \<open>any\<close>: the payload type is a parameter.\<close>

record 'd WebProof =
  url :: string
  response :: Response
  data :: 'd
  timestamp :: nat

record 'd Web =
  url :: string
  data :: 'd
  json :: 'd

text \<open>
  \<open>ProofInputs\<close>, \<open>ProofResult\<close>, \<open>generateProof\<close> and \<open>generateRandomNonce\<close> are imported
  from \<open>./zkProof\<close>. The type of a nonce and the fields of a proof result other than
  \<open>isValid\<close> are parameters. A field whose name is also a local variable of the source or
  a field of another record carries a prefix: \<open>in_\<close> in \<open>ProofInputs\<close>, \<open>r_\<close> in
  \<open>VLayerResult\<close>, \<open>acc_\<close> and \<open>bank_\<close> for \<open>id\<close>, \<open>name\<close>, \<open>type\<close> and \<open>code\<close>.
\<close>

record 'n ProofInputs =
  in_threshold :: int
  in_nonce :: 'n
  in_balance :: int
  secret_nonce :: 'n

record 'p ProofResult =
  isValid :: bool
  proofData :: 'p

record 'p VLayerResult =
  r_webProof :: "NubankBankData WebProof"
  r_web :: "NubankBankData Web"
  r_bankData :: NubankBankData
  r_selectedAccount :: NubankAccount
  r_proof :: "'p ProofResult"
  r_threshold :: number
  r_balance :: number

text \<open>
  An \<open>Error\<close> is modelled by its message: one constructor for each message template of the
  source, the interpolated values as arguments. \<open>Thrown\<close> is an error raised by a
  collaborator (\<open>fetch\<close>, \<open>generateProof\<close>), \<open>TypeError\<close> one raised by the runtime.
\<close>

datatype error =
    Thrown string
  | TypeError
  | HTTP_error nat
  | Falha_ao_criar_WebProof error
  | Falha_ao_verificar_WebProof
  | Falha_ao_buscar_dados_do_Nubank error
  | Nenhuma_conta_encontrada_no_Nubank
  | Saldo_insuficiente number number
  | A_prova_gerada_nao_e_valida
  | Path_not_found_in_JSON string
  | Erro_ao_extrair_string_do_JSON error
  | Erro_ao_extrair_numero_do_JSON error

text \<open>
  What the pipeline does to the outside, in order: a call of the progress callback, a
  request to the data source, a call of \<open>generateRandomNonce\<close>, a call of \<open>generateProof\<close>.
\<close>

datatype 'n event =
    OnProgress number string
  | FetchCall string "string option"
  | NonceCall
  | ProofCall "'n ProofInputs"

text \<open>
  The collaborators of one run. \<open>fetch\<close> rejects with a message or resolves to a response.
  \<open>sourceData\<close> is the payload that \<open>createWebProof\<close> stores in the proof: the source awaits
  \<open>mockNubankResponse()\<close> there and notes that production reads \<open>response.json()\<close>; the
  code as written is the world whose \<open>sourceData\<close> is \<open>mockNubankResponse\<close>.
  \<open>generateProof\<close> returns the calls it makes to its progress callback and then its result.
\<close>

record ('n, 'p) world =
  fetch :: "string \<Rightarrow> string option \<Rightarrow> string + Response"
  sourceData :: NubankBankData
  Date_now :: nat
  generateRandomNonce :: 'n
  generateProof :: "'n ProofInputs \<Rightarrow> (number \<times> string) list \<times> (error + 'p ProofResult)"

definition NUBANK_DATA_URL :: string where
  "NUBANK_DATA_URL = ''https://api.nubank.com.br/api/banks''"

definition mockNubankResponse :: NubankBankData where
  "mockNubankResponse =
     \<lparr>bank = \<lparr>bank_id = ''nubank'', bank_name = ''Nubank'', bank_code = ''260''\<rparr>,
      accounts =
        [\<lparr>acc_id = ''acc-001'', acc_name = ''Conta Corrente'', acc_type = Checking,
          balance = fl (500075 / 100), currency = ''BRL''\<rparr>,
         \<lparr>acc_id = ''acc-002'', acc_name = ''NuConta'', acc_type = Savings,
          balance = fl (1250050 / 100), currency = ''BRL''\<rparr>]\<rparr>"

section \<open>Operations\<close>

definition createWebProof ::
  "('n, 'p) world \<Rightarrow> string \<Rightarrow> string option \<Rightarrow> error + NubankBankData WebProof" where
  \<comment> \<open>the payload is an object, hence truthy: \<open>!response.ok && !data\<close> is false\<close>
  "createWebProof w dataUrl accessToken =
     (case fetch w dataUrl accessToken of
        Inl msg \<Rightarrow> Inl (Falha_ao_criar_WebProof (Thrown msg))
      | Inr resp \<Rightarrow>
          if \<not> ok resp \<and> \<not> True then Inl (Falha_ao_criar_WebProof (HTTP_error (status resp)))
          else Inr \<lparr>WebProof.url = dataUrl, response = resp, WebProof.data = sourceData w,
                    timestamp = Date_now w\<rparr>)"

definition verifyWebProof :: "'d WebProof \<Rightarrow> error + 'd Web" where
  \<comment> \<open>the body of the \<open>try\<close> reads three fields and cannot throw; the \<open>catch\<close> is dead\<close>
  "verifyWebProof webProof =
     Inr \<lparr>Web.url = WebProof.url webProof, Web.data = WebProof.data webProof,
          json = WebProof.data webProof\<rparr>"

fun reduce :: "('a \<Rightarrow> 'a \<Rightarrow> 'a) \<Rightarrow> 'a list \<Rightarrow> error + 'a" where
  \<comment> \<open>\<open>Array.prototype.reduce\<close> without an initial value\<close>
  "reduce f [] = Inl TypeError"
| "reduce f (x # xs) = Inr (foldl f x xs)"

definition fetchNubankData :: "('n, 'p) world \<Rightarrow> string option \<Rightarrow> error + NubankBankData" where
  "fetchNubankData w accessToken =
     (case createWebProof w NUBANK_DATA_URL accessToken of
        Inl e \<Rightarrow> Inl (Falha_ao_buscar_dados_do_Nubank e)
      | Inr webProof \<Rightarrow>
          (case verifyWebProof webProof of
             Inl e \<Rightarrow> Inl (Falha_ao_buscar_dados_do_Nubank e)
           | Inr web \<Rightarrow> Inr (json web)))"

definition getNubankAccountWithHighestBalance ::
  "('n, 'p) world \<Rightarrow> string option \<Rightarrow> error + NubankAccount" where
  "getNubankAccountWithHighestBalance w accessToken =
     (case fetchNubankData w accessToken of
        Inl e \<Rightarrow> Inl e
      | Inr bankData \<Rightarrow>
          if length (accounts bankData) = 0 then Inl Nenhuma_conta_encontrada_no_Nubank
          else reduce (\<lambda>max account.
                 if balance account > balance max then account else max)
                 (accounts bankData))"

definition convertBRLToWLD :: "number \<Rightarrow> number option \<Rightarrow> number" where
  \<comment> \<open>\<open>exchangeRate: number = 0.18\<close>\<close>
  "convertBRLToWLD brlAmount exchangeRate =
     js_mul brlAmount (case exchangeRate of None \<Rightarrow> fl (18 / 100) | Some r \<Rightarrow> r)"

definition emit :: "bool \<Rightarrow> number \<Rightarrow> string \<Rightarrow> 'n event list" where
  \<comment> \<open>\<open>onProgress?.(percent, text)\<close>: \<open>onProgress\<close> tells whether the caller passed a callback\<close>
  "emit onProgress percent text = (if onProgress then [OnProgress percent text] else [])"

definition mappedProgress :: "number \<Rightarrow> number" where
  \<comment> \<open>\<open>const mappedProgress = 70 + (progress * 0.3)\<close>\<close>
  "mappedProgress progress = js_add 70 (js_mul progress (fl (3 / 10)))"

definition proofProgressCallback :: "bool \<Rightarrow> number \<times> string \<Rightarrow> 'n event list" where
  "proofProgressCallback onProgress = (\<lambda>(progress, text).
     emit onProgress (mappedProgress progress) text)"

text \<open>
  \<open>vlayerGenerateProof\<close> returns the events of the run and its outcome. The \<open>catch\<close> at
  the end rethrows an error with the message it caught, so an error passes unchanged.
  \<open>accounts\<close> is an array, hence truthy: of \<open>!bankData.accounts || bankData.accounts.length === 0\<close>
  the test of the length remains. Labels are written without their diacritics;
  \<open>console.log\<close> is not modelled.
\<close>

definition vlayerGenerateProof ::
  "('n, 'p) world \<Rightarrow> number \<Rightarrow> string option \<Rightarrow> bool \<Rightarrow>
     'n event list \<times> (error + 'p VLayerResult)" where
  "vlayerGenerateProof w threshold accessToken onProgress =
    (let t1 = emit onProgress 0 ''Iniciando VLayer...''
            @ emit onProgress 10 ''Criando WebProof...''
            @ [FetchCall NUBANK_DATA_URL accessToken]
     in case createWebProof w NUBANK_DATA_URL accessToken of
       Inl e \<Rightarrow> (t1, Inl e)
     | Inr webProof \<Rightarrow>
    (let t2 = t1 @ emit onProgress 20 ''Verificando WebProof...''
     in case verifyWebProof webProof of
       Inl e \<Rightarrow> (t2, Inl e)
     | Inr web \<Rightarrow>
    (let t3 = t2 @ emit onProgress 30 ''Extraindo dados bancarios...'';
         bankData = json web
     in if length (accounts bankData) = 0
        then (t3, Inl Nenhuma_conta_encontrada_no_Nubank)
        else
    (let t4 = t3 @ emit onProgress 40 ''Selecionando conta...''
     in case reduce (\<lambda>max account.
                if balance account > balance max then account else max)
               (accounts bankData) of
       Inl e \<Rightarrow> (t4, Inl e)
     | Inr selectedAccount \<Rightarrow>
    (let balanceBRL = balance selectedAccount;
         t5 = t4 @ emit onProgress 50 ''Convertendo saldo...'';
         balanceInWLD = convertBRLToWLD balanceBRL None
     in if balanceInWLD < threshold
        then (t5, Inl (Saldo_insuficiente threshold (toFixed 2 balanceInWLD)))
        else
    (let t6 = t5 @ emit onProgress 60 ''Gerando nonce...'' @ [NonceCall];
         nonce = generateRandomNonce w;
         t7 = t6 @ emit onProgress 70 ''Preparando prova ZK...'';
         proofInputs =
           \<lparr>in_threshold = Math_floor (js_mul threshold 1000000),
            in_nonce = nonce,
            in_balance = Math_floor (js_mul balanceInWLD 1000000),
            secret_nonce = nonce\<rparr>;
         t8 = t7 @ emit onProgress 70 ''Gerando prova zero-knowledge...''
                 @ [ProofCall proofInputs];
         t9 = t8 @ concat (map (proofProgressCallback onProgress)
                            (fst (generateProof w proofInputs)))
     in case snd (generateProof w proofInputs) of
       Inl e \<Rightarrow> (t9, Inl e)
     | Inr proof \<Rightarrow>
         if \<not> isValid proof then (t9, Inl A_prova_gerada_nao_e_valida)
         else (t9 @ emit onProgress 100 ''Prova gerada com sucesso!'',
               Inr \<lparr>r_webProof = webProof, r_web = web, r_bankData = bankData,
                    r_selectedAccount = selectedAccount, r_proof = proof,
                    r_threshold = threshold, r_balance = balanceInWLD\<rparr>)))))))"

text \<open>The percentages that the progress callback received, in order.\<close>

fun percents :: "'n event list \<Rightarrow> number list" where
  "percents [] = []"
| "percents (OnProgress p l # es) = p # percents es"
| "percents (e # es) = percents es"

text \<open>The inputs of the calls of \<open>generateProof\<close>, in order.\<close>

fun proofCalls :: "'n event list \<Rightarrow> 'n ProofInputs list" where
  "proofCalls [] = []"
| "proofCalls (ProofCall i # es) = i # proofCalls es"
| "proofCalls (e # es) = proofCalls es"

section \<open>JSON accessors\<close>

text \<open>
  The values that \<open>json: any\<close> can hold. \<open>JBuiltin\<close> stands for a function or object that
  the runtime supplies through a prototype. An object is the list of its members in
  source order; as in \<open>JSON.parse\<close>, the last binding of a repeated key counts. The
  length and the indices of a string count its characters, which agrees with JavaScript
  for ASCII text.
\<close>

datatype jsval =
    JUndefined
  | JNull
  | JBool bool
  | JNum number
  | JStr string
  | JArr "jsval list"
  | JObj "(string \<times> jsval) list"
  | JBuiltin string

datatype jsnum = NaN | Num number

text \<open>
  What the accessors take from the ECMAScript runtime and not from this repository:
  \<open>proto v key\<close> is the property \<open>key\<close> that \<open>v\<close> inherits from its prototype chain
  (\<open>JUndefined\<close> when there is none); \<open>String_other\<close> and \<open>Number_other\<close> are \<open>String(v)\<close>
  and \<open>Number(v)\<close> on the values for which the conversion is not a fixed constant.
\<close>

record runtime =
  proto :: "jsval \<Rightarrow> string \<Rightarrow> jsval"
  String_other :: "jsval \<Rightarrow> error + string"
  Number_other :: "jsval \<Rightarrow> error + jsnum"

fun split_on :: "char \<Rightarrow> string \<Rightarrow> string list" where
  \<comment> \<open>\<open>path.split('.')\<close>\<close>
  "split_on d [] = [[]]"
| "split_on d (c # cs) =
     (if c = d then [] # split_on d cs
      else (case split_on d cs of [] \<Rightarrow> [[c]] | k # ks \<Rightarrow> (c # k) # ks))"

definition is_digit :: "char \<Rightarrow> bool" where
  "is_digit c = (48 \<le> (of_char c :: nat) \<and> (of_char c :: nat) \<le> 57)"

definition array_index :: "string \<Rightarrow> nat option" where
  \<comment> \<open>a key that is the canonical decimal spelling of an index\<close>
  "array_index s =
     (if s = [] \<or> \<not> list_all is_digit s \<or> (hd s = CHR ''0'' \<and> 1 < length s) then None
      else Some (foldl (\<lambda>n c. 10 * n + (of_char c - 48)) 0 s))"

definition getProp :: "runtime \<Rightarrow> jsval \<Rightarrow> string \<Rightarrow> error + jsval" where
  \<comment> \<open>\<open>value[key]\<close>: own properties first, then the prototype chain\<close>
  "getProp rt v key =
     (case v of
        JUndefined \<Rightarrow> Inl TypeError
      | JNull \<Rightarrow> Inl TypeError
      | JObj kvs \<Rightarrow>
          Inr (case map_of (rev kvs) key of Some x \<Rightarrow> x | None \<Rightarrow> proto rt v key)
      | JArr xs \<Rightarrow>
          Inr (case array_index key of
                 Some i \<Rightarrow> if i < length xs then xs ! i else proto rt v key
               | None \<Rightarrow> if key = ''length'' then JNum (of_nat (length xs))
                         else proto rt v key)
      | JStr s \<Rightarrow>
          Inr (case array_index key of
                 Some i \<Rightarrow> if i < length s then JStr [s ! i] else proto rt v key
               | None \<Rightarrow> if key = ''length'' then JNum (of_nat (length s))
                         else proto rt v key)
      | _ \<Rightarrow> Inr (proto rt v key))"

fun walk :: "runtime \<Rightarrow> string \<Rightarrow> jsval \<Rightarrow> string list \<Rightarrow> error + jsval" where
  \<comment> \<open>the \<open>for (const key of keys)\<close> loop of both accessors\<close>
  "walk rt path value [] = Inr value"
| "walk rt path value (key # keys) =
     (case getProp rt value key of
        Inl e \<Rightarrow> Inl e
      | Inr v \<Rightarrow> if v = JUndefined then Inl (Path_not_found_in_JSON path)
                 else walk rt path v keys)"


definition Number_js :: "runtime \<Rightarrow> jsval \<Rightarrow> error + jsnum" where
  \<comment> \<open>\<open>Number(value)\<close>\<close>
  "Number_js rt v =
     (case v of
        JUndefined \<Rightarrow> Inr NaN
      | JNull \<Rightarrow> Inr (Num 0)
      | JBool b \<Rightarrow> Inr (Num (if b then 1 else 0))
      | JNum n \<Rightarrow> Inr (Num n)
      | _ \<Rightarrow> Number_other rt v)"


definition jsonGetNumber :: "runtime \<Rightarrow> jsval \<Rightarrow> string \<Rightarrow> error + jsnum" where
  "jsonGetNumber rt j path =
     (case walk rt path j (split_on CHR ''.'' path) of
        Inl e \<Rightarrow> Inl (Erro_ao_extrair_numero_do_JSON e)
      | Inr value \<Rightarrow>
          (case Number_js rt value of
             Inl e \<Rightarrow> Inl (Erro_ao_extrair_numero_do_JSON e)
           | Inr n \<Rightarrow> Inr n))"

section \<open>Notions of the specification\<close>

text \<open>
  The account that the specification selects: the first one, in source order, whose
  balance is the maximum of the list.
\<close>

definition first_with_max_balance :: "NubankAccount list \<Rightarrow> NubankAccount option" where
  "first_with_max_balance accs = find (\<lambda>a. balance a = Max (set (map balance accs))) accs"





section \<open>Fixtures for closed examples\<close>

text \<open>
  A world in which the request succeeds, the nonce is 7, and the proof capability reports
  the progress \<open>sub\<close> and returns a proof whose \<open>isValid\<close> flag is \<open>valid\<close>.
\<close>

definition test_world ::
  "NubankBankData \<Rightarrow> (number \<times> string) list \<Rightarrow> bool \<Rightarrow> (nat, string) world" where
  "test_world payload sub valid =
     \<lparr>fetch = (\<lambda>dataUrl accessToken. Inr \<lparr>ok = True, status = 200\<rparr>),
      sourceData = payload,
      Date_now = 0,
      generateRandomNonce = 7,
      generateProof = (\<lambda>inputs. (sub, Inr \<lparr>isValid = valid, proofData = ''proof''\<rparr>))\<rparr>"

definition one_account :: "number \<Rightarrow> NubankBankData" where
  "one_account b =
     \<lparr>bank = \<lparr>bank_id = ''nubank'', bank_name = ''Nubank'', bank_code = ''260''\<rparr>,
      accounts = [\<lparr>acc_id = ''acc-001'', acc_name = ''Conta Corrente'', acc_type = Checking,
                   balance = b, currency = ''BRL''\<rparr>]\<rparr>"

definition no_accounts :: NubankBankData where
  "no_accounts =
     \<lparr>bank = \<lparr>bank_id = ''nubank'', bank_name = ''Nubank'', bank_code = ''260''\<rparr>,
      accounts = []\<rparr>"

definition tied_accounts :: NubankBankData where
  "tied_accounts =
     \<lparr>bank = \<lparr>bank_id = ''nubank'', bank_name = ''Nubank'', bank_code = ''260''\<rparr>,
      accounts =
        [\<lparr>acc_id = ''acc-001'', acc_name = ''A'', acc_type = Checking,
          balance = 10, currency = ''BRL''\<rparr>,
         \<lparr>acc_id = ''acc-002'', acc_name = ''B'', acc_type = Savings,
          balance = 50, currency = ''BRL''\<rparr>,
         \<lparr>acc_id = ''acc-003'', acc_name = ''C'', acc_type = Checking,
          balance = 50, currency = ''BRL''\<rparr>]\<rparr>"


definition sample_json :: jsval where
  "sample_json =
     JObj [(''bank'', JObj [(''id'', JStr ''nubank''), (''code'', JStr ''260''),
                            (''branch'', JNull)]),
           (''accounts'', JArr [JObj [(''id'', JStr ''acc-001''), (''balance'', JNum 50)]])]"

section \<open>Rounding is monotone\<close>

lemma bitlen_powi_bounds:
  fixes p :: int
  assumes "0 < p"
  shows "(2::rat) powi (bitlen p - 1) \<le> of_int p" and "of_int p < (2::rat) powi (bitlen p)"
proof -
  have b: "1 \<le> bitlen p" using assms by (auto simp: bitlen_alt_def)
  from bitlen_bounds[OF assms]
  have l: "2 ^ nat (bitlen p - 1) \<le> p" and u: "p < 2 ^ nat (bitlen p)" by auto
  have "(2::rat) powi (bitlen p - 1) = 2 ^ nat (bitlen p - 1)"
    using b by (simp add: power_int_def)
  also have "\<dots> = of_int (2 ^ nat (bitlen p - 1))" by simp
  also have "\<dots> \<le> of_int p" using l by (simp only: of_int_le_iff)
  finally show "(2::rat) powi (bitlen p - 1) \<le> of_int p" .
  have "(of_int p :: rat) < of_int (2 ^ nat (bitlen p))" using u by (simp only: of_int_less_iff)
  also have "\<dots> = 2 ^ nat (bitlen p)" by simp
  also have "\<dots> = (2::rat) powi (bitlen p)" using b by (simp add: power_int_def)
  finally show "of_int p < (2::rat) powi (bitlen p)" .
qed

lemma expo_bounds:
  assumes "x \<noteq> 0"
  shows "2 powi (expo x) \<le> \<bar>x\<bar>" and "\<bar>x\<bar> < 2 powi (expo x + 1)"
proof -
  obtain p q where pq: "quotient_of \<bar>x\<bar> = (p, q)" by (cases "quotient_of \<bar>x\<bar>")
  have q: "0 < q" using pq by (rule quotient_of_denom_pos)
  have x: "\<bar>x\<bar> = of_int p / of_int q" using pq by (rule quotient_of_div)
  have xpos: "0 < \<bar>x\<bar>" using assms by simp
  have p: "0 < p" using xpos q unfolding x by (simp add: zero_less_divide_iff)
  define d where "d = bitlen p - bitlen q"
  note bp = bitlen_powi_bounds[OF p] and bq = bitlen_powi_bounds[OF q]
  have qr: "(0::rat) < of_int q" using q by simp
  have "\<bar>x\<bar> < 2 powi (bitlen p) / 2 powi (bitlen q - 1)"
    unfolding x using bp(2) bq(1) qr p
    by (intro frac_less) auto
  also have "\<dots> = 2 powi (d + 1)"
  proof -
    have e: "d + 1 = bitlen p - (bitlen q - 1)" by (simp add: d_def)
    show ?thesis unfolding e by (rule power_int_diff[symmetric]) simp
  qed
  finally have up: "\<bar>x\<bar> < 2 powi (d + 1)" .
  have "(2::rat) powi (d - 1) = 2 powi (bitlen p - 1) / 2 powi (bitlen q)"
  proof -
    have e: "d - 1 = (bitlen p - 1) - bitlen q" by (simp add: d_def)
    show ?thesis unfolding e by (rule power_int_diff) simp
  qed
  also have "\<dots> \<le> \<bar>x\<bar>"
    unfolding x using bp(1) bq(2) qr p
    by (intro frac_le) auto
  finally have lo: "2 powi (d - 1) \<le> \<bar>x\<bar>" .
  have e: "expo x = (if 2 powi d \<le> \<bar>x\<bar> then d else d - 1)"
    by (simp add: expo_def pq d_def Let_def)
  show "2 powi (expo x) \<le> \<bar>x\<bar>" using lo by (simp add: e)
  show "\<bar>x\<bar> < 2 powi (expo x + 1)" using up by (auto simp add: e not_le)
qed


lemma expo_unique:
  assumes "2 powi e \<le> \<bar>x\<bar>" and "\<bar>x\<bar> < 2 powi (e + 1)"
  shows "expo x = e"
proof -
  have "0 < (2::rat) powi e" by simp
  with assms(1) have "0 < \<bar>x\<bar>" by linarith
  then have x: "x \<noteq> 0" by auto
  note b = expo_bounds[OF x]
  have "\<not> e < expo x"
  proof
    assume "e < expo x"
    then have "(2::rat) powi (e + 1) \<le> 2 powi (expo x)"
      by (intro power_int_increasing) auto
    then show False using b(1) assms(2) by linarith
  qed
  moreover have "\<not> expo x < e"
  proof
    assume "expo x < e"
    then have "(2::rat) powi (expo x + 1) \<le> 2 powi e"
      by (intro power_int_increasing) auto
    then show False using b(2) assms(1) by linarith
  qed
  ultimately show ?thesis by linarith
qed





lemma expo_minus [simp]: "expo (- x) = expo x"
  by (simp add: expo_def)






lemma fl_zero [simp]: "fl 0 = 0"
  by (simp add: fl_def)


section \<open>Account selection\<close>

lemma foldl_higher:
  fixes x :: NubankAccount
  defines "f \<equiv> (\<lambda>max account. if balance account > balance max then account else max)"
  shows "\<exists>i < length (x # xs). (x # xs) ! i = foldl f x xs
     \<and> (\<forall>b \<in> set (x # xs). balance b \<le> balance (foldl f x xs))
     \<and> (\<forall>j < i. balance ((x # xs) ! j) < balance (foldl f x xs))"
proof (induction xs rule: rev_induct)
  case Nil
  show ?case by simp
next
  case (snoc y ys)
  let ?a = "foldl f x ys"
  from snoc obtain i where i: "i < length (x # ys)" "(x # ys) ! i = ?a"
    and le: "\<forall>b \<in> set (x # ys). balance b \<le> balance ?a"
    and lt: "\<forall>j < i. balance ((x # ys) ! j) < balance ?a" by blast
  show ?case
  proof (cases "balance y > balance ?a")
    case True
    then have r: "foldl f x (ys @ [y]) = y" by (simp add: f_def)
    have "(x # ys @ [y]) ! length (x # ys) = y"
      by (metis append_Cons nth_append_length)
    moreover have "\<forall>b \<in> set (x # ys @ [y]). balance b \<le> balance y"
      using le True by auto
    moreover have "\<forall>j < length (x # ys). balance ((x # ys @ [y]) ! j) < balance y"
    proof (intro allI impI)
      fix j assume j: "j < length (x # ys)"
      then have "(x # ys @ [y]) ! j = (x # ys) ! j"
        by (metis append_Cons nth_append)
      moreover have "(x # ys) ! j \<in> set (x # ys)" using j by (rule nth_mem)
      ultimately show "balance ((x # ys @ [y]) ! j) < balance y"
        using le True by fastforce
    qed
    ultimately show ?thesis unfolding r
      by (intro exI[of _ "length (x # ys)"]) simp
  next
    case False
    then have r: "foldl f x (ys @ [y]) = ?a" by (simp add: f_def)
    have n: "\<And>j. j < length (x # ys) \<Longrightarrow> (x # ys @ [y]) ! j = (x # ys) ! j"
      by (metis append_Cons nth_append)
    have "(x # ys @ [y]) ! i = ?a" using i n by simp
    moreover have "\<forall>b \<in> set (x # ys @ [y]). balance b \<le> balance ?a"
      using le False by auto
    moreover have "\<forall>j < i. balance ((x # ys @ [y]) ! j) < balance ?a"
      using lt i n by simp
    ultimately show ?thesis unfolding r using i
      by (intro exI[of _ i]) simp
  qed
qed

lemma first_with_max_balance_index:
  "first_with_max_balance accs = Some a \<longleftrightarrow>
     (\<exists>i < length accs. accs ! i = a
        \<and> (\<forall>b \<in> set accs. balance b \<le> balance a)
        \<and> (\<forall>j < i. balance (accs ! j) < balance a))"
proof
  assume "first_with_max_balance accs = Some a"
  then obtain i where i: "i < length accs" "accs ! i = a"
    and m: "balance a = Max (set (map balance accs))"
    and n: "\<forall>j < i. balance (accs ! j) \<noteq> Max (set (map balance accs))"
    by (auto simp: first_with_max_balance_def find_Some_iff)
  have le: "\<forall>b \<in> set accs. balance b \<le> balance a"
    unfolding m by (auto intro: Max_ge)
  have "\<forall>j < i. balance (accs ! j) < balance a"
  proof (intro allI impI)
    fix j assume j: "j < i"
    then have "accs ! j \<in> set accs" using i(1) by simp
    then have "balance (accs ! j) \<le> balance a" using le by blast
    moreover have "balance (accs ! j) \<noteq> balance a" using n j m by simp
    ultimately show "balance (accs ! j) < balance a" by simp
  qed
  then show "\<exists>i < length accs. accs ! i = a
        \<and> (\<forall>b \<in> set accs. balance b \<le> balance a)
        \<and> (\<forall>j < i. balance (accs ! j) < balance a)" using i le by blast
next
  assume "\<exists>i < length accs. accs ! i = a
        \<and> (\<forall>b \<in> set accs. balance b \<le> balance a)
        \<and> (\<forall>j < i. balance (accs ! j) < balance a)"
  then obtain i where i: "i < length accs" "accs ! i = a"
    and le: "\<forall>b \<in> set accs. balance b \<le> balance a"
    and lt: "\<forall>j < i. balance (accs ! j) < balance a" by blast
  have a: "a \<in> set accs" using i by auto
  have m: "Max (set (map balance accs)) = balance a"
    using a le by (intro Max_eqI) auto
  show "first_with_max_balance accs = Some a"
    unfolding first_with_max_balance_def find_Some_iff m
    using i lt by (intro exI[of _ i]) auto
qed

lemma first_with_max_balance_None: "first_with_max_balance accs = None \<longleftrightarrow> accs = []"
proof
  assume n: "first_with_max_balance accs = None"
  show "accs = []"
  proof (rule ccontr)
    assume "accs \<noteq> []"
    then have "Max (set (map balance accs)) \<in> set (map balance accs)"
      by (intro Max_in) auto
    then obtain a where "a \<in> set accs" "balance a = Max (set (map balance accs))" by auto
    then show False using n by (auto simp: first_with_max_balance_def find_None_iff)
  qed
next
  assume "accs = []"
  then show "first_with_max_balance accs = None" by (simp add: first_with_max_balance_def)
qed

lemma reduce_first_with_max_balance:
  assumes "accs \<noteq> []"
  shows "\<exists>a. reduce (\<lambda>max account. if balance account > balance max then account else max) accs
           = Inr a \<and> first_with_max_balance accs = Some a"
proof -
  obtain x xs where accs: "accs = x # xs" using assms by (cases accs) auto
  show ?thesis
    unfolding accs first_with_max_balance_index
    using foldl_higher[of x xs] by auto
qed

section \<open>The branches of the pipeline\<close>

lemma percents_append [simp]: "percents (xs @ ys) = percents xs @ percents ys"
  by (induction xs rule: percents.induct) simp_all

lemma proofCalls_append [simp]: "proofCalls (xs @ ys) = proofCalls xs @ proofCalls ys"
  by (induction xs rule: proofCalls.induct) simp_all

lemma percents_emit [simp]: "percents (emit op p l) = (if op then [p] else [])"
  by (simp add: emit_def)

lemma proofCalls_emit [simp]: "proofCalls (emit op p l) = []"
  by (simp add: emit_def)

lemma percents_callbacks [simp]:
  "percents (concat (map (proofProgressCallback op) sub)) =
     (if op then map (\<lambda>(progress, text). mappedProgress progress) sub else [])"
  by (induction sub) (auto simp: proofProgressCallback_def)

lemma proofCalls_callbacks [simp]:
  "proofCalls (concat (map (proofProgressCallback op) sub)) = []"
  by (induction sub) (auto simp: proofProgressCallback_def)

lemma vlayer_fetch_rejected:
  assumes "fetch w NUBANK_DATA_URL tok = Inl msg"
  shows "vlayerGenerateProof w T tok op =
     (emit op 0 ''Iniciando VLayer...'' @ emit op 10 ''Criando WebProof...''
        @ [FetchCall NUBANK_DATA_URL tok],
      Inl (Falha_ao_criar_WebProof (Thrown msg)))"
  using assms by (simp add: vlayerGenerateProof_def createWebProof_def)

lemma vlayer_no_accounts:
  assumes "fetch w NUBANK_DATA_URL tok = Inr resp" and "accounts (sourceData w) = []"
  shows "vlayerGenerateProof w T tok op =
     (emit op 0 ''Iniciando VLayer...'' @ emit op 10 ''Criando WebProof...''
        @ [FetchCall NUBANK_DATA_URL tok] @ emit op 20 ''Verificando WebProof...''
        @ emit op 30 ''Extraindo dados bancarios...'',
      Inl Nenhuma_conta_encontrada_no_Nubank)"
  using assms by (simp add: vlayerGenerateProof_def createWebProof_def verifyWebProof_def)

lemma vlayer_insufficient:
  assumes "fetch w NUBANK_DATA_URL tok = Inr resp"
    and "first_with_max_balance (accounts (sourceData w)) = Some a"
    and "convertBRLToWLD (balance a) None < T"
  shows "vlayerGenerateProof w T tok op =
     (emit op 0 ''Iniciando VLayer...'' @ emit op 10 ''Criando WebProof...''
        @ [FetchCall NUBANK_DATA_URL tok] @ emit op 20 ''Verificando WebProof...''
        @ emit op 30 ''Extraindo dados bancarios...'' @ emit op 40 ''Selecionando conta...''
        @ emit op 50 ''Convertendo saldo...'',
      Inl (Saldo_insuficiente T (toFixed 2 (convertBRLToWLD (balance a) None))))"
proof -
  have ne: "accounts (sourceData w) \<noteq> []"
    using assms(2) first_with_max_balance_None[of "accounts (sourceData w)"] by auto
  from reduce_first_with_max_balance[OF ne] assms(2)
  have r: "reduce (\<lambda>max account. if balance account > balance max then account else max)
             (accounts (sourceData w)) = Inr a" by auto
  show ?thesis
    using assms(1,3) ne r
    by (simp add: vlayerGenerateProof_def createWebProof_def verifyWebProof_def Let_def)
qed

lemma vlayer_proving:
  assumes "fetch w NUBANK_DATA_URL tok = Inr resp"
    and "first_with_max_balance (accounts (sourceData w)) = Some a"
    and "\<not> convertBRLToWLD (balance a) None < T"
    and "inputs = \<lparr>in_threshold = Math_floor (js_mul T 1000000),
                   in_nonce = generateRandomNonce w,
                   in_balance = Math_floor (js_mul (convertBRLToWLD (balance a) None) 1000000),
                   secret_nonce = generateRandomNonce w\<rparr>"
    and "pre = emit op 0 ''Iniciando VLayer...'' @ emit op 10 ''Criando WebProof...''
        @ [FetchCall NUBANK_DATA_URL tok] @ emit op 20 ''Verificando WebProof...''
        @ emit op 30 ''Extraindo dados bancarios...'' @ emit op 40 ''Selecionando conta...''
        @ emit op 50 ''Convertendo saldo...'' @ emit op 60 ''Gerando nonce...'' @ [NonceCall]
        @ emit op 70 ''Preparando prova ZK...'' @ emit op 70 ''Gerando prova zero-knowledge...''
        @ [ProofCall inputs]
        @ concat (map (proofProgressCallback op) (fst (generateProof w inputs)))"
  shows "vlayerGenerateProof w T tok op =
     (case snd (generateProof w inputs) of
        Inl e \<Rightarrow> (pre, Inl e)
      | Inr p \<Rightarrow>
          if \<not> isValid p then (pre, Inl A_prova_gerada_nao_e_valida)
          else (pre @ emit op 100 ''Prova gerada com sucesso!'',
                Inr \<lparr>r_webProof = \<lparr>WebProof.url = NUBANK_DATA_URL, response = resp,
                                    WebProof.data = sourceData w, timestamp = Date_now w\<rparr>,
                     r_web = \<lparr>Web.url = NUBANK_DATA_URL, Web.data = sourceData w,
                              json = sourceData w\<rparr>,
                     r_bankData = sourceData w, r_selectedAccount = a, r_proof = p,
                     r_threshold = T, r_balance = convertBRLToWLD (balance a) None\<rparr>))"
proof -
  have ne: "accounts (sourceData w) \<noteq> []"
    using assms(2) first_with_max_balance_None[of "accounts (sourceData w)"] by auto
  from reduce_first_with_max_balance[OF ne] assms(2)
  have r: "reduce (\<lambda>max account. if balance account > balance max then account else max)
             (accounts (sourceData w)) = Inr a" by auto
  show ?thesis
    using assms(1,3) ne r unfolding assms(4,5)
    by (simp add: vlayerGenerateProof_def createWebProof_def verifyWebProof_def Let_def
          split: sum.splits)
qed

lemma proofCalls_vlayer:
  "proofCalls (fst (vlayerGenerateProof w T tok op)) = [] \<or>
   (\<exists>a. first_with_max_balance (accounts (sourceData w)) = Some a \<and>
     \<not> convertBRLToWLD (balance a) None < T \<and>
     proofCalls (fst (vlayerGenerateProof w T tok op)) =
       [\<lparr>in_threshold = Math_floor (js_mul T 1000000),
         in_nonce = generateRandomNonce w,
         in_balance = Math_floor (js_mul (convertBRLToWLD (balance a) None) 1000000),
         secret_nonce = generateRandomNonce w\<rparr>])"
proof (cases "fetch w NUBANK_DATA_URL tok")
  case (Inl msg)
  then show ?thesis by (simp add: vlayer_fetch_rejected)
next
  case (Inr resp)
  show ?thesis
  proof (cases "first_with_max_balance (accounts (sourceData w))")
    case None
    then have "accounts (sourceData w) = []" by (simp add: first_with_max_balance_None)
    then show ?thesis using Inr by (simp add: vlayer_no_accounts)
  next
    case (Some a)
    show ?thesis
    proof (cases "convertBRLToWLD (balance a) None < T")
      case True
      then show ?thesis using Inr Some by (simp add: vlayer_insufficient)
    next
      case False
      show ?thesis
        using Some False
        by (simp add: vlayer_proving[OF Inr Some False refl refl] split: sum.splits)
    qed
  qed
qed

lemma getNubankAccountWithHighestBalance_eq:
  assumes "fetch w NUBANK_DATA_URL tok = Inr resp"
  shows "getNubankAccountWithHighestBalance w tok =
     (case first_with_max_balance (accounts (sourceData w)) of
        None \<Rightarrow> Inl Nenhuma_conta_encontrada_no_Nubank
      | Some a \<Rightarrow> Inr a)"
proof (cases "accounts (sourceData w) = []")
  case True
  then show ?thesis
    using assms
    by (simp add: getNubankAccountWithHighestBalance_def fetchNubankData_def
          createWebProof_def verifyWebProof_def first_with_max_balance_def)
next
  case False
  from reduce_first_with_max_balance[OF False] obtain a where
    "reduce (\<lambda>max account. if balance account > balance max then account else max)
       (accounts (sourceData w)) = Inr a"
    "first_with_max_balance (accounts (sourceData w)) = Some a" by blast
  then show ?thesis
    using assms False
    by (simp add: getNubankAccountWithHighestBalance_def fetchNubankData_def
          createWebProof_def verifyWebProof_def)
qed

lemma vlayer_selectedAccount:
  assumes "snd (vlayerGenerateProof w T tok op) = Inr r"
  shows "first_with_max_balance (accounts (sourceData w)) = Some (r_selectedAccount r)"
proof (cases "fetch w NUBANK_DATA_URL tok")
  case (Inl msg)
  then show ?thesis using assms by (simp add: vlayer_fetch_rejected)
next
  case (Inr resp)
  show ?thesis
  proof (cases "first_with_max_balance (accounts (sourceData w))")
    case None
    then have "accounts (sourceData w) = []" by (simp add: first_with_max_balance_None)
    then show ?thesis using Inr assms by (simp add: vlayer_no_accounts)
  next
    case (Some a)
    show ?thesis
    proof (cases "convertBRLToWLD (balance a) None < T")
      case True
      then show ?thesis using Inr Some assms by (simp add: vlayer_insufficient)
    next
      case False
      show ?thesis
        using Some False assms
        by (auto simp add: vlayer_proving[OF Inr Some False refl refl]
              split: sum.splits if_splits)
    qed
  qed
qed

section \<open>Micro-unit amounts and signs\<close>



section \<open>Successful runs\<close>

lemma vlayer_success:
  assumes "snd (vlayerGenerateProof w T tok op) = Inr r"
  shows "\<exists>resp a p.
      fetch w NUBANK_DATA_URL tok = Inr resp
    \<and> first_with_max_balance (accounts (sourceData w)) = Some a
    \<and> \<not> convertBRLToWLD (balance a) None < T
    \<and> snd (generateProof w
          \<lparr>in_threshold = Math_floor (js_mul T 1000000),
           in_nonce = generateRandomNonce w,
           in_balance = Math_floor (js_mul (convertBRLToWLD (balance a) None) 1000000),
           secret_nonce = generateRandomNonce w\<rparr>) = Inr p
    \<and> isValid p
    \<and> r = \<lparr>r_webProof = \<lparr>WebProof.url = NUBANK_DATA_URL, response = resp,
                           WebProof.data = sourceData w, timestamp = Date_now w\<rparr>,
             r_web = \<lparr>Web.url = NUBANK_DATA_URL, Web.data = sourceData w,
                      json = sourceData w\<rparr>,
             r_bankData = sourceData w, r_selectedAccount = a, r_proof = p,
             r_threshold = T, r_balance = convertBRLToWLD (balance a) None\<rparr>"
proof (cases "fetch w NUBANK_DATA_URL tok")
  case (Inl msg)
  then show ?thesis using assms by (simp add: vlayer_fetch_rejected)
next
  case (Inr resp)
  show ?thesis
  proof (cases "first_with_max_balance (accounts (sourceData w))")
    case None
    then have "accounts (sourceData w) = []" by (simp add: first_with_max_balance_None)
    then show ?thesis using Inr assms by (simp add: vlayer_no_accounts)
  next
    case (Some a)
    show ?thesis
    proof (cases "convertBRLToWLD (balance a) None < T")
      case True
      then show ?thesis using Inr Some assms by (simp add: vlayer_insufficient)
    next
      case False
      show ?thesis
        using Inr Some False assms
        by (auto simp add: vlayer_proving[OF Inr Some False refl refl]
              split: sum.splits if_splits)
    qed
  qed
qed






section \<open>Progress\<close>








section \<open>Paths in JSON values\<close>




lemma accessors_on_sample_json_for_every_runtime:
  "jsonGetNumber rt sample_json ''bank.branch'' = Inr (Num 0)"
  "jsonGetNumber rt sample_json ''bank.code.length'' = Inr (Num 3)"
  by code_simp+

section \<open>Claims\<close>

subsection \<open>C1\<close>

text \<open>
  C1 (as amended). The value returned by a successful run is a \<open>VLayerResult\<close>: besides
  the proof result, whose \<open>isValid\<close> flag is true, it holds the web proof and the verified
  view with the raw payload, the bank data, the selected account (the first one with the
  maximum balance), the threshold as passed, and the converted balance of that account.
\<close>

theorem returned_value_holds_bank_data_and_balance:
  assumes "snd (vlayerGenerateProof w T tok op) = Inr r"
  shows "isValid (r_proof r)
       \<and> WebProof.data (r_webProof r) = sourceData w
       \<and> json (r_web r) = sourceData w
       \<and> Web.data (r_web r) = sourceData w
       \<and> r_bankData r = sourceData w
       \<and> first_with_max_balance (accounts (sourceData w)) = Some (r_selectedAccount r)
       \<and> r_threshold r = T
       \<and> r_balance r = convertBRLToWLD (balance (r_selectedAccount r)) None"
  using vlayer_success[OF assms] by auto

theorem returned_value_holds_bank_data_and_balance_witness:
  "snd (vlayerGenerateProof (test_world (one_account 50) [] True) 1 None True) =
     Inr \<lparr>r_webProof = \<lparr>WebProof.url = ''https://api.nubank.com.br/api/banks'',
                          response = \<lparr>ok = True, status = 200\<rparr>,
                          WebProof.data = one_account 50, timestamp = 0\<rparr>,
          r_web = \<lparr>Web.url = ''https://api.nubank.com.br/api/banks'',
                   Web.data = one_account 50, json = one_account 50\<rparr>,
          r_bankData = one_account 50,
          r_selectedAccount =
            \<lparr>acc_id = ''acc-001'', acc_name = ''Conta Corrente'', acc_type = Checking,
             balance = 50, currency = ''BRL''\<rparr>,
          r_proof = \<lparr>isValid = True, proofData = ''proof''\<rparr>,
          r_threshold = 1, r_balance = 9\<rparr>
   \<and> r_bankData \<lparr>r_webProof = \<lparr>WebProof.url = ''https://api.nubank.com.br/api/banks'',
                          response = \<lparr>ok = True, status = 200\<rparr>,
                          WebProof.data = one_account 50, timestamp = 0\<rparr>,
          r_web = \<lparr>Web.url = ''https://api.nubank.com.br/api/banks'',
                   Web.data = one_account 50, json = one_account 50\<rparr>,
          r_bankData = one_account 50,
          r_selectedAccount =
            \<lparr>acc_id = ''acc-001'', acc_name = ''Conta Corrente'', acc_type = Checking,
             balance = 50, currency = ''BRL''\<rparr>,
          r_proof = \<lparr>isValid = True, proofData = ''proof''\<rparr>,
          r_threshold = 1 :: rat, r_balance = 9 :: rat\<rparr> =
       sourceData (test_world (one_account 50) [] True)"
proof -
  have e: "snd (vlayerGenerateProof (test_world (one_account 50) [] True) 1 None True) =
     Inr \<lparr>r_webProof = \<lparr>WebProof.url = ''https://api.nubank.com.br/api/banks'',
                          response = \<lparr>ok = True, status = 200\<rparr>,
                          WebProof.data = one_account 50, timestamp = 0\<rparr>,
          r_web = \<lparr>Web.url = ''https://api.nubank.com.br/api/banks'',
                   Web.data = one_account 50, json = one_account 50\<rparr>,
          r_bankData = one_account 50,
          r_selectedAccount =
            \<lparr>acc_id = ''acc-001'', acc_name = ''Conta Corrente'', acc_type = Checking,
             balance = 50, currency = ''BRL''\<rparr>,
          r_proof = \<lparr>isValid = True, proofData = ''proof''\<rparr>,
          r_threshold = 1, r_balance = 9\<rparr>"
    by code_simp
  show ?thesis
    using returned_value_holds_bank_data_and_balance[OF e] e by simp
qed

text \<open>
  The claim as stated fails on the development payload: the returned value holds the whole
  bank data, the selected account record and its converted balance.
\<close>

theorem returned_value_discloses_balance:
  "snd (vlayerGenerateProof (test_world mockNubankResponse [] True) 1 None True) =
     Inr \<lparr>r_webProof = \<lparr>WebProof.url = ''https://api.nubank.com.br/api/banks'',
                          response = \<lparr>ok = True, status = 200\<rparr>,
                          WebProof.data = mockNubankResponse, timestamp = 0\<rparr>,
          r_web = \<lparr>Web.url = ''https://api.nubank.com.br/api/banks'',
                   Web.data = mockNubankResponse, json = mockNubankResponse\<rparr>,
          r_bankData = mockNubankResponse,
          r_selectedAccount =
            \<lparr>acc_id = ''acc-002'', acc_name = ''NuConta'', acc_type = Savings,
             balance = 25001 / 2, currency = ''BRL''\<rparr>,
          r_proof = \<lparr>isValid = True, proofData = ''proof''\<rparr>,
          r_threshold = 1, r_balance = 4948000237084999 / 2199023255552\<rparr>"
  by code_simp

subsection \<open>C2\<close>




subsection \<open>C3\<close>



subsection \<open>C4\<close>




subsection \<open>C5\<close>




subsection \<open>C6\<close>

text \<open>
  C6. When the request succeeds, account selection (\<open>getNubankAccountWithHighestBalance\<close>,
  and the same reduction inside \<open>vlayerGenerateProof\<close>) fails with
  \<open>Nenhuma conta encontrada no Nubank\<close> exactly for an empty account list, and otherwise
  returns the account at the first index whose balance is the maximum of the list: no
  account has a larger balance and every earlier account has a strictly smaller one.
\<close>

theorem selects_first_account_with_max_balance:
  assumes "fetch w NUBANK_DATA_URL tok = Inr resp"
  shows "(accounts (sourceData w) = [] \<longrightarrow>
            getNubankAccountWithHighestBalance w tok = Inl Nenhuma_conta_encontrada_no_Nubank
          \<and> snd (vlayerGenerateProof w T tok op) = Inl Nenhuma_conta_encontrada_no_Nubank)
       \<and> (accounts (sourceData w) \<noteq> [] \<longrightarrow>
            (\<exists>i < length (accounts (sourceData w)).
               getNubankAccountWithHighestBalance w tok = Inr (accounts (sourceData w) ! i)
             \<and> first_with_max_balance (accounts (sourceData w)) = Some (accounts (sourceData w) ! i)
             \<and> (\<forall>b \<in> set (accounts (sourceData w)).
                    balance b \<le> balance (accounts (sourceData w) ! i))
             \<and> (\<forall>j < i. balance (accounts (sourceData w) ! j)
                           < balance (accounts (sourceData w) ! i))
             \<and> (\<forall>r. snd (vlayerGenerateProof w T tok op) = Inr r \<longrightarrow>
                    r_selectedAccount r = accounts (sourceData w) ! i)))"
proof (intro conjI impI)
  assume e: "accounts (sourceData w) = []"
  show "getNubankAccountWithHighestBalance w tok = Inl Nenhuma_conta_encontrada_no_Nubank"
    using e by (simp add: getNubankAccountWithHighestBalance_eq[OF assms]
                  first_with_max_balance_def)
  show "snd (vlayerGenerateProof w T tok op) = Inl Nenhuma_conta_encontrada_no_Nubank"
    using e by (simp add: vlayer_no_accounts[OF assms])
next
  assume ne: "accounts (sourceData w) \<noteq> []"
  then obtain a where a: "first_with_max_balance (accounts (sourceData w)) = Some a"
    using first_with_max_balance_None[of "accounts (sourceData w)"] by (cases "first_with_max_balance (accounts (sourceData w))") auto
  then obtain i where i: "i < length (accounts (sourceData w))" "accounts (sourceData w) ! i = a"
    and le: "\<forall>b \<in> set (accounts (sourceData w)). balance b \<le> balance a"
    and lt: "\<forall>j < i. balance (accounts (sourceData w) ! j) < balance a"
    unfolding first_with_max_balance_index by blast
  have g: "getNubankAccountWithHighestBalance w tok = Inr a"
    using a by (simp add: getNubankAccountWithHighestBalance_eq[OF assms])
  have s: "\<forall>r. snd (vlayerGenerateProof w T tok op) = Inr r \<longrightarrow> r_selectedAccount r = a"
    using vlayer_selectedAccount[of w T tok op] a by auto
  show "\<exists>i < length (accounts (sourceData w)).
               getNubankAccountWithHighestBalance w tok = Inr (accounts (sourceData w) ! i)
             \<and> first_with_max_balance (accounts (sourceData w)) = Some (accounts (sourceData w) ! i)
             \<and> (\<forall>b \<in> set (accounts (sourceData w)).
                    balance b \<le> balance (accounts (sourceData w) ! i))
             \<and> (\<forall>j < i. balance (accounts (sourceData w) ! j)
                           < balance (accounts (sourceData w) ! i))
             \<and> (\<forall>r. snd (vlayerGenerateProof w T tok op) = Inr r \<longrightarrow>
                    r_selectedAccount r = accounts (sourceData w) ! i)"
    using i a le lt g s by (intro exI[of _ i]) simp
qed

theorem selects_first_account_with_max_balance_witness:
  "getNubankAccountWithHighestBalance (test_world tied_accounts [] True) None =
     Inr \<lparr>acc_id = ''acc-002'', acc_name = ''B'', acc_type = Savings, balance = 50, currency = ''BRL''\<rparr>
   \<and> getNubankAccountWithHighestBalance (test_world no_accounts [] True) None =
       Inl Nenhuma_conta_encontrada_no_Nubank
   \<and> snd (vlayerGenerateProof (test_world no_accounts [] True) 1 None True) =
       Inl Nenhuma_conta_encontrada_no_Nubank"
proof -
  let ?w = "test_world tied_accounts [] True" and ?v = "test_world no_accounts [] True"
  have f: "fetch ?w NUBANK_DATA_URL None = Inr \<lparr>ok = True, status = 200\<rparr>"
    and f': "fetch ?v NUBANK_DATA_URL None = Inr \<lparr>ok = True, status = 200\<rparr>"
    by (simp_all add: test_world_def)
  have a: "accounts (sourceData ?w) = accounts tied_accounts" "accounts (sourceData ?v) = []"
    by (simp_all add: test_world_def no_accounts_def)
  have m: "first_with_max_balance (accounts tied_accounts) =
     Some \<lparr>acc_id = ''acc-002'', acc_name = ''B'', acc_type = Savings, balance = 50, currency = ''BRL''\<rparr>"
    by code_simp
  have ne: "accounts tied_accounts \<noteq> []" by (simp add: tied_accounts_def)
  from selects_first_account_with_max_balance[OF f, of 1 True] ne
  have "getNubankAccountWithHighestBalance ?w None =
     Inr \<lparr>acc_id = ''acc-002'', acc_name = ''B'', acc_type = Savings, balance = 50, currency = ''BRL''\<rparr>"
    unfolding a m by auto
  moreover from selects_first_account_with_max_balance[OF f', of 1 True]
  have "getNubankAccountWithHighestBalance ?v None = Inl Nenhuma_conta_encontrada_no_Nubank
     \<and> snd (vlayerGenerateProof ?v 1 None True) = Inl Nenhuma_conta_encontrada_no_Nubank"
    unfolding a by simp
  ultimately show ?thesis by simp
qed

subsection \<open>C7\<close>

text \<open>
  C7 (as amended). \<open>verifyWebProof\<close> does not inspect the payload: for every web proof,
  whatever its payload, it succeeds and returns the view with the proof's url and with
  the payload as both \<open>data\<close> and \<open>json\<close>. So \<open>fetchNubankData\<close> hands the payload of the
  source to its caller unchanged whenever the request succeeds.
\<close>

theorem verifyWebProof_accepts_every_payload:
  "(\<exists>web. verifyWebProof webProof = Inr web
          \<and> Web.url web = WebProof.url webProof
          \<and> Web.data web = WebProof.data webProof
          \<and> json web = WebProof.data webProof)
   \<and> fetchNubankData w tok =
       (case fetch w NUBANK_DATA_URL tok of
          Inl msg \<Rightarrow> Inl (Falha_ao_buscar_dados_do_Nubank (Falha_ao_criar_WebProof (Thrown msg)))
        | Inr resp \<Rightarrow> Inr (sourceData w))"
  by (simp add: verifyWebProof_def fetchNubankData_def createWebProof_def split: sum.splits)

text \<open>
  The claim as stated fails for a web proof whose payload is the text of an error page,
  and for one that has no payload: both are accepted.
\<close>

theorem verifyWebProof_accepts_error_page:
  "verifyWebProof \<lparr>WebProof.url = ''https://api.nubank.com.br/api/banks'',
                   response = \<lparr>ok = False, status = 502\<rparr>,
                   WebProof.data = JStr ''<html>502 Bad Gateway</html>'', timestamp = 0\<rparr>
     = Inr \<lparr>Web.url = ''https://api.nubank.com.br/api/banks'',
            Web.data = JStr ''<html>502 Bad Gateway</html>'',
            json = JStr ''<html>502 Bad Gateway</html>''\<rparr>
   \<and> verifyWebProof \<lparr>WebProof.url = ''https://api.nubank.com.br/api/banks'',
                   response = \<lparr>ok = False, status = 502\<rparr>,
                   WebProof.data = JUndefined, timestamp = 0\<rparr>
     = Inr \<lparr>Web.url = ''https://api.nubank.com.br/api/banks'',
            Web.data = JUndefined, json = JUndefined\<rparr>"
  by (simp add: verifyWebProof_def)

subsection \<open>C8\<close>




subsection \<open>C9\<close>




subsection \<open>C10\<close>

text \<open>
  C10. In every attestation attempt the proof inputs handed to \<open>generateProof\<close> have
  \<open>secret_nonce = nonce\<close>, and both are the one value that \<open>generateRandomNonce\<close>
  returned: the private blinding value is never distinct from the public nonce.
\<close>

theorem secret_nonce_is_public_nonce:
  "\<forall>inputs \<in> set (proofCalls (fst (vlayerGenerateProof w T tok op))).
     secret_nonce inputs = in_nonce inputs \<and> in_nonce inputs = generateRandomNonce w"
  using proofCalls_vlayer[of w T tok op] by auto

theorem secret_nonce_is_public_nonce_witness:
  "proofCalls (fst (vlayerGenerateProof (test_world mockNubankResponse [] True) 1 None True)) =
     [\<lparr>in_threshold = 1000000, in_nonce = 7, in_balance = 2250089999, secret_nonce = 7\<rparr>]
   \<and> secret_nonce \<lparr>in_threshold = 1000000, in_nonce = 7 :: nat, in_balance = 2250089999,
                     secret_nonce = 7\<rparr> = 7"
proof -
  have c: "proofCalls (fst (vlayerGenerateProof (test_world mockNubankResponse [] True) 1 None True)) =
     [\<lparr>in_threshold = 1000000, in_nonce = 7, in_balance = 2250089999, secret_nonce = 7\<rparr>]"
    by code_simp
  have n: "generateRandomNonce (test_world mockNubankResponse [] True) = 7"
    by (simp add: test_world_def)
  show ?thesis
    using secret_nonce_is_public_nonce[of "test_world mockNubankResponse [] True" 1 None True]
    unfolding c n by simp
qed

end
